theory Spec2Isabelle
  imports
    Main
    "HOL-Library.Multiset"
    "HOL-Library.Char_ord"
    "HOL-Library.List_Lexorder"
    "HOL-Library.Product_Lexorder"
begin

section \<open>Exceptions and string formatting\<close>

text \<open>
  The exceptions that \<^verbatim>\<open>lib/iris/__init__.py\<close> raises, catches or lets through, each with
  its message. \<open>OtherError\<close> stands for any exception raised by the caller's own code.
  The specification calls the \<open>AttributeError\<close> of \<^verbatim>\<open>Future.__setattr__\<close>
  "UnknownOptionError", and the two \<open>ValueError\<close>s "UnsupportedSchemeError" and "arity error".
\<close>

datatype exn =
    AttributeError string
  | ValueError string
  | EOFError string
  | TranslationError string
  | ConstraintMismatchError string
  | OtherError string

text \<open>
  Python 2's \<^verbatim>\<open>repr\<close> of a byte string, which \<^verbatim>\<open>'{!r}'.format(s)\<close> produces: single quotes,
  unless the string holds a single quote and no double quote; the quote character and the
  backslash are escaped, tab, newline and carriage return are written \<^verbatim>\<open>\t \n \r\<close>, and every
  other byte outside the printable ASCII range is written \<^verbatim>\<open>\xNN\<close>.
\<close>

definition hex_digit :: "nat \<Rightarrow> char" where
  "hex_digit n = ''0123456789abcdef'' ! (n mod 16)"

definition repr_char :: "char \<Rightarrow> char \<Rightarrow> string" where
  "repr_char quote c =
     (if c = quote \<or> c = CHR 0x5C then [CHR 0x5C, c]
      else if c = CHR 0x09 then [CHR 0x5C, CHR ''t'']
      else if c = CHR 0x0A then [CHR 0x5C, CHR ''n'']
      else if c = CHR 0x0D then [CHR 0x5C, CHR ''r'']
      else if (of_char c :: nat) < 32 \<or> (of_char c :: nat) \<ge> 127
        then [CHR 0x5C, CHR ''x'', hex_digit (of_char c div 16), hex_digit (of_char c)]
      else [c])"

definition repr :: "string \<Rightarrow> string" where
  "repr s =
     (let quote = (if CHR 0x27 \<in> set s \<and> CHR 0x22 \<notin> set s then CHR 0x22 else CHR 0x27)
      in [quote] @ concat (map (repr_char quote) s) @ [quote])"

section \<open>The run-time options: class Future\<close>

text \<open>
  The state of a \<^verbatim>\<open>Future\<close> object is its \<^verbatim>\<open>__dict__\<close>: a dictionary from option names to
  values. The values are arbitrary Python objects, so their type is a parameter.
\<close>

type_synonym 'v options = "string \<rightharpoonup> 'v"

text \<open>\<^verbatim>\<open>Future.__init__\<close>: the only entry is \<^verbatim>\<open>cell_time_objects\<close>.\<close>

definition Future_init :: "'v \<Rightarrow> 'v options" where
  "Future_init cell_time_objects = [''cell_time_objects'' \<mapsto> cell_time_objects]"

text \<open>
  \<^verbatim>\<open>Future.__setattr__\<close>: a name that is not a key of \<^verbatim>\<open>__dict__\<close> raises
  \<^verbatim>\<open>AttributeError\<close>; otherwise the entry is overwritten.
\<close>

definition Future_setattr :: "'v options \<Rightarrow> string \<Rightarrow> 'v \<Rightarrow> exn + 'v options" where
  "Future_setattr d name val =
     (if name \<notin> dom d
      then Inl (AttributeError
        ([CHR 0x27] @ ''Future'' @ [CHR 0x27] @ '' object has no attribute '' @ repr name))
      else Inr (d(name \<mapsto> val)))"

text \<open>
  A block of code that runs against the options: from the dictionary it starts with to
  the exception it lets escape, if any, and the dictionary it leaves. The dictionary is
  mutated in place, so it is returned also when an exception escapes.
\<close>

type_synonym 'v block = "'v options \<Rightarrow> exn option \<times> 'v options"

text \<open>A direct assignment \<^verbatim>\<open>FUTURE.name = val\<close>, as a block.\<close>

definition assign :: "string \<Rightarrow> 'v \<Rightarrow> 'v block" where
  "assign name val d =
     (case Future_setattr d name val of Inl e \<Rightarrow> (Some e, d) | Inr d' \<Rightarrow> (None, d'))"

text \<open>A block that raises without touching the options.\<close>

definition raising :: "exn \<Rightarrow> 'v block" where
  "raising e d = (Some e, d)"

text \<open>Two blocks in sequence: the second runs only if the first lets no exception escape.\<close>

definition seq :: "'v block \<Rightarrow> 'v block \<Rightarrow> 'v block" where
  "seq b1 b2 d = (case b1 d of (Some e, d1) \<Rightarrow> (Some e, d1) | (None, d1) \<Rightarrow> b2 d1)"

text \<open>
  The loop \<^verbatim>\<open>for name, value in kwargs.iteritems(): setattr(self, name, value)\<close>. The
  keyword dictionary is given as the list of its items in iteration order. The first
  failing \<^verbatim>\<open>setattr\<close> ends the loop; the assignments made before it stay.
\<close>

fun apply_kwargs :: "(string \<times> 'v) list \<Rightarrow> 'v block" where
  "apply_kwargs [] d = (None, d)"
| "apply_kwargs ((name, val) # kwargs) d =
     (case Future_setattr d name val of
        Inl e \<Rightarrow> (Some e, d)
      | Inr d' \<Rightarrow> apply_kwargs kwargs d')"

text \<open>
  \<^verbatim>\<open>with self.context(**kwargs): body\<close>. The generator behind
  \<^verbatim>\<open>contextlib.contextmanager\<close> copies \<^verbatim>\<open>__dict__\<close>, applies the keywords and yields.
  An exception raised while the keywords are applied leaves the \<^verbatim>\<open>with\<close> statement before
  the body runs. An exception escaping the body is thrown into the generator at its
  \<^verbatim>\<open>yield\<close>, which is not inside a \<^verbatim>\<open>try\<close>: it leaves the generator there, and the two
  statements after the \<^verbatim>\<open>yield\<close> do not run. When the body completes, they run:
  \<^verbatim>\<open>__dict__\<close> is cleared and then updated with the copy.
\<close>

definition Future_context :: "(string \<times> 'v) list \<Rightarrow> 'v block \<Rightarrow> 'v block" where
  "Future_context kwargs body d =
     (let current_state = d in
      case apply_kwargs kwargs d of
        (Some e, d1) \<Rightarrow> (Some e, d1)
      | (None, d1) \<Rightarrow>
          (case body d1 of
             (Some e, d2) \<Rightarrow> (Some e, d2)
           | (None, d2) \<Rightarrow> (None, Map.empty ++ current_state)))"

section \<open>Loading: the collaborators\<close>

text \<open>
  The \<^verbatim>\<open>uris\<close> argument of the load functions: a single string, or an iterable of strings.
\<close>

datatype uris = Str string | Iter "string list"

text \<open>
  What a loader of \<^verbatim>\<open>iris.io\<close> returns: a generator of cubes, which produces its cubes one
  at a time and then is exhausted, or raises part-way.
\<close>

datatype 'cube iter = Exhausted | Produce 'cube "'cube iter" | Broken exn

text \<open>
  The generator \<^verbatim>\<open>_generate_cubes\<close> as the sequence of what happens while it is consumed: a
  loader of \<^verbatim>\<open>iris.io\<close> is called with a list of names and the callback, a cube is yielded,
  and at the end the generator stops or an exception leaves it. Nothing of it happens when
  the generator is created.
\<close>

datatype loader = Load_files | Load_http

datatype ('cube, 'cb) gen =
    Stop
  | Yield 'cube "('cube, 'cb) gen"
  | Raise exn
  | Call loader "string list" 'cb "('cube, 'cb) gen"

type_synonym 'cb calls = "(loader \<times> string list \<times> 'cb) list"

text \<open>
  A constraint is opaque to this module. \<^verbatim>\<open>None\<close> stands for the constraint that every cube
  satisfies; the constraints argument is absent (\<^verbatim>\<open>None\<close>), one constraint, or a list.
\<close>

datatype 'con constraint = CatchAll | Selector 'con

datatype 'con constraints = Absent | Single "'con constraint" | Several "'con constraint list"

text \<open>
  The functions of other modules that this module calls and whose code is not part of it,
  as parameters: \<^verbatim>\<open>iris.io.decode_uri\<close>, \<^verbatim>\<open>iris.io.load_files\<close>, \<^verbatim>\<open>iris.io.load_http\<close>, the
  test of a cube against a constraint, \<^verbatim>\<open>str\<close> of a constraint, and the merge of a list of
  cubes.
\<close>

record ('cube, 'con, 'cb) env =
  decode_uri :: "string \<Rightarrow> string \<times> string"
  load_files :: "string list \<Rightarrow> 'cb \<Rightarrow> 'cube iter"
  load_http :: "string list \<Rightarrow> 'cb \<Rightarrow> 'cube iter"
  selects :: "'con \<Rightarrow> 'cube \<Rightarrow> bool"
  constraint_str :: "'con constraint \<Rightarrow> string"
  merge_cubes :: "'cube list \<Rightarrow> 'cube list"

text \<open>
  Modelled from the spec: \<^verbatim>\<open>iris._constraints.list_of_constraints\<close>, whose code is not in
  this module. The specification: the constraints are "\<^verbatim>\<open>None\<close>, one constraint, or an
  iterable of constraints", normalised "to an ordered list of constraints", where "\<^verbatim>\<open>None\<close>
  becomes a single catch-all".
\<close>

definition list_of_constraints :: "'con constraints \<Rightarrow> 'con constraint list" where
  "list_of_constraints constraints =
     (case constraints of Absent \<Rightarrow> [CatchAll] | Single c \<Rightarrow> [c] | Several cs \<Rightarrow> cs)"

text \<open>
  Modelled from the spec: whether a record satisfies a constraint; \<^verbatim>\<open>None\<close> is "normalized to a
  single always-true constraint".
\<close>

definition matches :: "('cube, 'con, 'cb) env \<Rightarrow> 'con constraint \<Rightarrow> 'cube \<Rightarrow> bool" where
  "matches env c cube = (case c of CatchAll \<Rightarrow> True | Selector p \<Rightarrow> selects env p cube)"

text \<open>
  A pair is a constraint with the list of cubes that matched it; a collection is the list
  of pairs, one per constraint.
\<close>

type_synonym ('cube, 'con) pair = "'con constraint \<times> 'cube list"

text \<open>
  Modelled from the spec: \<^verbatim>\<open>iris.cube._CubeFilterCollection\<close>, whose code is not in this
  module. Adding a cube: "test it against each constraint in list order; append the record
  to every pair whose constraint matched".
\<close>

definition add_cube ::
  "('cube, 'con, 'cb) env \<Rightarrow> 'cube \<Rightarrow> ('cube, 'con) pair list \<Rightarrow> ('cube, 'con) pair list" where
  "add_cube env cube pairs =
     map (\<lambda>pair. if matches env (fst pair) cube then (fst pair, snd pair @ [cube]) else pair) pairs"

text \<open>
  Modelled from the spec: the loop of \<^verbatim>\<open>_CubeFilterCollection.from_cubes\<close> over the stream.
  "The next record is not pulled until the current one has been tested against all
  constraints"; an exception that leaves the stream leaves the loop. The result is the list
  of loader calls made while the stream was consumed, and the exception or the pairs.
\<close>

fun consume ::
  "('cube, 'con, 'cb) env \<Rightarrow> ('cube, 'cb) gen \<Rightarrow> ('cube, 'con) pair list \<Rightarrow>
     'cb calls \<times> (exn + ('cube, 'con) pair list)" where
  "consume env Stop pairs = ([], Inr pairs)"
| "consume env (Yield cube rest) pairs = consume env rest (add_cube env cube pairs)"
| "consume env (Raise e) pairs = ([], Inl e)"
| "consume env (Call l names callback rest) pairs =
     (case consume env rest pairs of (calls, r) \<Rightarrow> ((l, names, callback) # calls, r))"

text \<open>
  Modelled from the spec: \<^verbatim>\<open>_CubeFilterCollection.from_cubes\<close>: the constraints are normalised,
  "one [pair] per supplied constraint, in constraint order", each empty at first, and the
  stream is consumed.
\<close>

definition from_cubes ::
  "('cube, 'con, 'cb) env \<Rightarrow> ('cube, 'cb) gen \<Rightarrow> 'con constraints \<Rightarrow>
     'cb calls \<times> (exn + ('cube, 'con) pair list)" where
  "from_cubes env cubes constraints =
     consume env cubes (map (\<lambda>c. (c, [])) (list_of_constraints constraints))"

text \<open>
  Modelled from the spec: \<^verbatim>\<open>_CubeFilterCollection.merged\<close>: "for each pair, independently
  invoke the external merge algorithm on that pair's record list", with "the same pair
  ordering and same constraints".
\<close>

definition merged ::
  "('cube, 'con, 'cb) env \<Rightarrow> ('cube, 'con) pair list \<Rightarrow> ('cube, 'con) pair list" where
  "merged env pairs = map (\<lambda>pair. (fst pair, merge_cubes env (snd pair))) pairs"

text \<open>
  Modelled from the spec: \<^verbatim>\<open>_CubeFilterCollection.cubes\<close>: "concatenates every pair's record
  list in pair order, each list's internal order preserved; no deduplication across pairs".
\<close>

definition cubes :: "('cube, 'con) pair list \<Rightarrow> 'cube list" where
  "cubes pairs = concat (map snd pairs)"

section \<open>Loading: this module\<close>

text \<open>Python's \<^verbatim>\<open>sep.join(xs)\<close> and the decimal digits of \<^verbatim>\<open>'{}'.format(n)\<close>.\<close>

fun join :: "string \<Rightarrow> string list \<Rightarrow> string" where
  "join sep [] = []"
| "join sep [x] = x"
| "join sep (x # y # ys) = x @ sep @ join sep (y # ys)"

fun str_nat :: "nat \<Rightarrow> string" where
  "str_nat n =
     (if n < 10 then [char_of (48 + n)] else str_nat (n div 10) @ [char_of (48 + n mod 10)])"

declare str_nat.simps [simp del]

text \<open>
  \<^verbatim>\<open>itertools.groupby(xs, key)\<close>: the maximal runs of consecutive elements with equal key,
  each with its key, in order.
\<close>

function groupby :: "('a \<Rightarrow> 'k) \<Rightarrow> 'a list \<Rightarrow> ('k \<times> 'a list) list" where
  "groupby key [] = []"
| "groupby key (x # xs) =
     (key x, x # takeWhile (\<lambda>y. key y = key x) xs)
       # groupby key (dropWhile (\<lambda>y. key y = key x) xs)"
  by pat_completeness auto
termination
  by (relation "measure (\<lambda>(key, xs). length xs)")
     (auto simp: length_dropWhile_le less_Suc_eq_le)

text \<open>
  The first lines of \<^verbatim>\<open>_generate_cubes\<close>: a single string is wrapped in a list, every URI is
  decoded to its (scheme, part) tuple, and the tuples are sorted. Python compares tuples
  and byte strings lexicographically, as the orders on pairs, lists and characters here do.
\<close>

definition uri_list :: "uris \<Rightarrow> string list" where
  "uri_list uris = (case uris of Str s \<Rightarrow> [s] | Iter xs \<Rightarrow> xs)"

definition uri_tuples :: "('cube, 'con, 'cb) env \<Rightarrow> uris \<Rightarrow> (string \<times> string) list" where
  "uri_tuples env uris = sort (map (decode_uri env) (uri_list uris))"

text \<open>
  \<^verbatim>\<open>for cube in loader(...): yield cube\<close>, followed by the rest of the generator: an exception
  of the loader leaves the generator.
\<close>

fun yield_all :: "'cube iter \<Rightarrow> ('cube, 'cb) gen \<Rightarrow> ('cube, 'cb) gen" where
  "yield_all Exhausted rest = rest"
| "yield_all (Produce cube it) rest = Yield cube (yield_all it rest)"
| "yield_all (Broken e) rest = Raise e"

text \<open>
  The loop of \<^verbatim>\<open>_generate_cubes\<close> over the groups: a \<^verbatim>\<open>file\<close> group calls \<^verbatim>\<open>load_files\<close> with
  the parts, an \<^verbatim>\<open>http\<close> or \<^verbatim>\<open>https\<close> group calls \<^verbatim>\<open>load_http\<close> with each tuple joined by a
  colon, and any other scheme raises \<^verbatim>\<open>ValueError\<close>.
\<close>

fun generate_groups ::
  "('cube, 'con, 'cb) env \<Rightarrow> 'cb \<Rightarrow> (string \<times> (string \<times> string) list) list \<Rightarrow> ('cube, 'cb) gen" where
  "generate_groups env callback [] = Stop"
| "generate_groups env callback ((scheme, groups) # rest) =
     (if scheme = ''file'' then
        Call Load_files (map snd groups) callback
          (yield_all (load_files env (map snd groups) callback) (generate_groups env callback rest))
      else if scheme \<in> set [''http'', ''https''] then
        Call Load_http (map (\<lambda>x. fst x @ '':'' @ snd x) groups) callback
          (yield_all (load_http env (map (\<lambda>x. fst x @ '':'' @ snd x) groups) callback)
             (generate_groups env callback rest))
      else Raise (ValueError (''Iris cannot handle the URI scheme: '' @ scheme)))"

definition generate_cubes :: "('cube, 'con, 'cb) env \<Rightarrow> uris \<Rightarrow> 'cb \<Rightarrow> ('cube, 'cb) gen" where
  "generate_cubes env uris callback =
     generate_groups env callback (groupby fst (uri_tuples env uris))"

text \<open>
  \<^verbatim>\<open>_load_collection\<close>: an \<^verbatim>\<open>EOFError\<close> raised while the collection is built is replaced by a
  \<^verbatim>\<open>TranslationError\<close>; any other exception passes.
\<close>

definition load_collection ::
  "('cube, 'con, 'cb) env \<Rightarrow> uris \<Rightarrow> 'con constraints \<Rightarrow> 'cb \<Rightarrow>
     'cb calls \<times> (exn + ('cube, 'con) pair list)" where
  "load_collection env uris constraints callback =
     (case from_cubes env (generate_cubes env uris callback) constraints of
        (calls, Inl (EOFError message)) \<Rightarrow>
          (calls, Inl (TranslationError (''The file appears empty or incomplete: '' @ repr message)))
      | (calls, Inl e) \<Rightarrow> (calls, Inl e)
      | (calls, Inr result) \<Rightarrow> (calls, Inr result))"

text \<open>\<^verbatim>\<open>load\<close>: the collection, merged, then its cubes.\<close>

definition load ::
  "('cube, 'con, 'cb) env \<Rightarrow> uris \<Rightarrow> 'con constraints \<Rightarrow> 'cb \<Rightarrow> 'cb calls \<times> (exn + 'cube list)" where
  "load env uris constraints callback =
     (case load_collection env uris constraints callback of
        (calls, Inl e) \<Rightarrow> (calls, Inl e)
      | (calls, Inr collection) \<Rightarrow> (calls, Inr (cubes (merged env collection))))"

text \<open>
  \<^verbatim>\<open>load_cube\<close>: the number of constraints is checked first, then the number of cubes after
  the merge.
\<close>

definition load_cube ::
  "('cube, 'con, 'cb) env \<Rightarrow> uris \<Rightarrow> 'con constraints \<Rightarrow> 'cb \<Rightarrow> 'cb calls \<times> (exn + 'cube)" where
  "load_cube env uris constraint callback =
     (let constraints = list_of_constraints constraint in
      if length constraints \<noteq> 1 then ([], Inl (ValueError ''only a single constraint is allowed''))
      else
        (case load_collection env uris (Several constraints) callback of
           (calls, Inl e) \<Rightarrow> (calls, Inl e)
         | (calls, Inr collection) \<Rightarrow>
             (let cs = cubes (merged env collection) in
              if length cs \<noteq> 1 then
                (calls, Inl (ConstraintMismatchError
                   (''Expected exactly one cube, found '' @ str_nat (length cs) @ ''.'')))
              else (calls, Inr (cs ! 0)))))"

text \<open>
  The message that \<^verbatim>\<open>load_cubes\<close> builds from the pairs it found bad: a newline, then the
  lines \<^verbatim>\<open>'   {} -> {} cubes'.format(pair.constraint, len(pair))\<close> joined by newlines.
\<close>

definition mismatch_message ::
  "('cube, 'con, 'cb) env \<Rightarrow> ('cube, 'con) pair list \<Rightarrow> string" where
  "mismatch_message env bad_pairs =
     [CHR 0x0A] @ join [CHR 0x0A]
       (map (\<lambda>pair. ''   '' @ constraint_str env (fst pair) @ '' -> ''
                     @ str_nat (length (snd pair)) @ '' cubes'') bad_pairs)"

text \<open>
  \<^verbatim>\<open>load_cubes\<close>: after the merge, the pairs that do not hold exactly one cube are collected;
  if there is any, \<^verbatim>\<open>ConstraintMismatchError\<close> is raised with the message built from them.
\<close>

definition load_cubes ::
  "('cube, 'con, 'cb) env \<Rightarrow> uris \<Rightarrow> 'con constraints \<Rightarrow> 'cb \<Rightarrow> 'cb calls \<times> (exn + 'cube list)" where
  "load_cubes env uris constraints callback =
     (case load_collection env uris constraints callback of
        (calls, Inl e) \<Rightarrow> (calls, Inl e)
      | (calls, Inr result) \<Rightarrow>
          (let collection = merged env result;
               bad_pairs = filter (\<lambda>pair. length (snd pair) \<noteq> 1) collection
           in if bad_pairs \<noteq> [] then
                (calls, Inl (ConstraintMismatchError (mismatch_message env bad_pairs)))
              else (calls, Inr (cubes collection))))"

text \<open>\<^verbatim>\<open>load_raw\<close>: the cubes of the collection as it was built.\<close>

definition load_raw ::
  "('cube, 'con, 'cb) env \<Rightarrow> uris \<Rightarrow> 'con constraints \<Rightarrow> 'cb \<Rightarrow> 'cb calls \<times> (exn + 'cube list)" where
  "load_raw env uris constraints callback =
     (case load_collection env uris constraints callback of
        (calls, Inl e) \<Rightarrow> (calls, Inl e)
      | (calls, Inr collection) \<Rightarrow> (calls, Inr (cubes collection)))"

section \<open>What a stream does when it is consumed\<close>

text \<open>
  The cubes a stream yields, the loader calls it makes, and the exception that ends it, if
  any, when it is consumed to its end.
\<close>

fun stream_cubes :: "('cube, 'cb) gen \<Rightarrow> 'cube list" where
  "stream_cubes Stop = []"
| "stream_cubes (Yield cube rest) = cube # stream_cubes rest"
| "stream_cubes (Raise e) = []"
| "stream_cubes (Call l names callback rest) = stream_cubes rest"

fun stream_calls :: "('cube, 'cb) gen \<Rightarrow> 'cb calls" where
  "stream_calls Stop = []"
| "stream_calls (Yield cube rest) = stream_calls rest"
| "stream_calls (Raise e) = []"
| "stream_calls (Call l names callback rest) = (l, names, callback) # stream_calls rest"

fun stream_error :: "('cube, 'cb) gen \<Rightarrow> exn option" where
  "stream_error Stop = None"
| "stream_error (Yield cube rest) = stream_error rest"
| "stream_error (Raise e) = Some e"
| "stream_error (Call l names callback rest) = stream_error rest"


section \<open>A small environment for examples\<close>

text \<open>
  A stand-in for \<^verbatim>\<open>iris.io.decode_uri\<close>: the scheme is what stands before the first colon,
  and a string without a colon is a \<^verbatim>\<open>file\<close>.
\<close>

definition example_decode_uri :: "string \<Rightarrow> string \<times> string" where
  "example_decode_uri uri =
     (if CHR '':'' \<in> set uri
      then (takeWhile (\<lambda>c. c \<noteq> CHR '':'') uri, tl (dropWhile (\<lambda>c. c \<noteq> CHR '':'') uri))
      else (''file'', uri))"

text \<open>
  A stand-in for the loaders: every name gives one cube, the name itself, and the source
  \<^verbatim>\<open>truncated.pp\<close> ends early.
\<close>

fun example_loader :: "string list \<Rightarrow> unit \<Rightarrow> string iter" where
  "example_loader [] callback = Exhausted"
| "example_loader (name # names) callback =
     (if name = ''truncated.pp'' then Broken (EOFError ''unexpected end of file'')
      else Produce name (example_loader names callback))"

text \<open>A constraint selects the cube of its name; the merge drops repeated cubes.\<close>

definition example_env :: "(string, string, unit) env" where
  "example_env =
     \<lparr>decode_uri = example_decode_uri,
      load_files = example_loader,
      load_http = example_loader,
      selects = (\<lambda>name cube. name = cube),
      constraint_str = (\<lambda>c. case c of CatchAll \<Rightarrow> ''Constraint()'' | Selector name \<Rightarrow> name),
      merge_cubes = remdups\<rparr>"

section \<open>Properties of the options\<close>




text \<open>
  Nesting and the exceptional exit in general. An inner \<^verbatim>\<open>with\<close> block that completes hands
  the code after it the dictionary it was entered with, so nested blocks that complete
  restore innermost first. A block whose body raises, after the keywords were applied, leaves
  the dictionary as the body left it.
\<close>

lemma nested_contexts_restore_in_turn:
  assumes "fst (Future_context inner_kwargs inner d1) = None"
  shows "seq (Future_context inner_kwargs inner) rest d1 = rest d1"
proof -
  from assms have "Future_context inner_kwargs inner d1 = (None, d1)"
    by (auto simp: Future_context_def split: prod.splits option.splits)
  then show ?thesis by (simp add: seq_def)
qed

lemma context_exception_keeps_state:
  "apply_kwargs kwargs d = (None, d1) \<Longrightarrow> body d1 = (Some e, d2) \<Longrightarrow>
   Future_context kwargs body d = (Some e, d2)"
  by (simp add: Future_context_def)

text \<open>
  Claim C10. An assignment made inside a \<^verbatim>\<open>context\<close> block, by a keyword at entry or by a
  direct attribute set in the body, is undone when the block completes normally: whatever
  the keywords and the body are, a block that lets no exception escape leaves exactly the
  dictionary it was entered with, because the exit replaces the whole dictionary with the
  copy taken at entry.
\<close>

theorem context_normal_exit_restores_mapping:
  "fst (Future_context kwargs body d) = None \<Longrightarrow> snd (Future_context kwargs body d) = d"
  by (auto simp: Future_context_def split: prod.splits option.splits)

theorem context_normal_exit_restores_mapping_witness:
  "snd (assign ''cell_time_objects'' True (Future_init False)) ''cell_time_objects'' = Some True \<and>
   fst (Future_context [] (assign ''cell_time_objects'' True) (Future_init False)) = None \<and>
   snd (Future_context [] (assign ''cell_time_objects'' True) (Future_init False)) = Future_init False"
proof -
  have inside: "snd (assign ''cell_time_objects'' True (Future_init False)) ''cell_time_objects'' = Some True"
    by (simp add: assign_def Future_setattr_def Future_init_def)
  have normal: "fst (Future_context [] (assign ''cell_time_objects'' True) (Future_init False)) = None"
    by (simp add: Future_context_def assign_def Future_setattr_def Future_init_def)
  from inside normal context_normal_exit_restores_mapping [OF normal] show ?thesis
    by blast
qed

text \<open>
  Claim C1, the exceptional exit. Entered from the default options with
  \<^verbatim>\<open>cell_time_objects=True\<close>, a block that raises leaves \<^verbatim>\<open>cell_time_objects\<close> at
  \<open>True\<close>: the exception leaves the generator at its \<^verbatim>\<open>yield\<close> and the restoring
  statements are skipped.
\<close>

theorem context_exception_skips_restore:
  "Future_context [(''cell_time_objects'', True)] (raising (OtherError ''SomeError'')) (Future_init False)
     = (Some (OtherError ''SomeError''), Future_init True)"
  by (simp add: Future_context_def raising_def Future_setattr_def Future_init_def)




section \<open>Properties of loading\<close>

text \<open>
  Consuming a stream: the calls are those the stream makes, and the outcome is the
  exception that ends the stream or, constraint by constraint, the cubes that match.
\<close>

lemma consume_eq:
  "consume env g pairs =
     (stream_calls g,
      case stream_error g of
        Some e \<Rightarrow> Inl e
      | None \<Rightarrow> Inr (foldl (\<lambda>ps cube. add_cube env cube ps) pairs (stream_cubes g)))"
  by (induction g arbitrary: pairs) (simp_all split: option.splits)

lemma add_cubes_partition:
  "foldl (\<lambda>ps cube. add_cube env cube ps) (map (\<lambda>c. (c, acc c)) cs) xs =
     map (\<lambda>c. (c, acc c @ filter (matches env c) xs)) cs"
proof (induction xs arbitrary: acc)
  case Nil
  then show ?case by simp
next
  case (Cons x xs)
  have step: "add_cube env x (map (\<lambda>c. (c, acc c)) cs) =
      map (\<lambda>c. (c, (\<lambda>c. acc c @ filter (matches env c) [x]) c)) cs"
    by (simp add: add_cube_def)
  show ?case
    unfolding foldl_Cons step Cons.IH by simp
qed

lemma from_cubes_eq:
  "from_cubes env g constraints =
     (stream_calls g,
      case stream_error g of
        Some e \<Rightarrow> Inl e
      | None \<Rightarrow> Inr (map (\<lambda>c. (c, filter (matches env c) (stream_cubes g)))
                       (list_of_constraints constraints)))"
  using add_cubes_partition [of env "\<lambda>c. []" "list_of_constraints constraints" "stream_cubes g"]
  by (simp add: from_cubes_def consume_eq split: option.splits)

lemma load_collection_ok:
  "stream_error (generate_cubes env uris callback) = None \<Longrightarrow>
   load_collection env uris constraints callback =
     (stream_calls (generate_cubes env uris callback),
      Inr (map (\<lambda>c. (c, filter (matches env c) (stream_cubes (generate_cubes env uris callback))))
             (list_of_constraints constraints)))"
  by (simp add: load_collection_def from_cubes_eq)

lemma load_collection_eof:
  "stream_error (generate_cubes env uris callback) = Some (EOFError message) \<Longrightarrow>
   load_collection env uris constraints callback =
     (stream_calls (generate_cubes env uris callback),
      Inl (TranslationError (''The file appears empty or incomplete: '' @ repr message)))"
  by (simp add: load_collection_def from_cubes_eq)


text \<open>
  Claim C2. When the constraint argument of \<^verbatim>\<open>load_cube\<close> does not normalise to exactly one
  constraint (none, or two or more), \<^verbatim>\<open>load_cube\<close> raises the \<^verbatim>\<open>ValueError\<close>
  "only a single constraint is allowed" whatever the URIs, the loaders and the callback
  are, and no loader has been called: the list of loader calls is empty.
\<close>

theorem load_cube_arity_error:
  "length (list_of_constraints constraint) \<noteq> 1 \<Longrightarrow>
   load_cube env uris constraint callback =
     ([], Inl (ValueError ''only a single constraint is allowed''))"
  by (simp add: load_cube_def)

theorem load_cube_arity_error_witness:
  "load_cube example_env (Str ''a.pp'') (Several []) () =
     ([], Inl (ValueError ''only a single constraint is allowed'')) \<and>
   load_cube example_env (Str ''a.pp'') (Several [CatchAll, Selector ''a.pp'']) () =
     ([], Inl (ValueError ''only a single constraint is allowed'')) \<and>
   load_cube example_env (Str ''a.pp'') (Single CatchAll) () =
     ([(Load_files, [''a.pp''], ())], Inr ''a.pp'')"
proof -
  have zero: "length (list_of_constraints (Several ([] :: string constraint list))) \<noteq> 1"
    by (simp add: list_of_constraints_def)
  have two: "length (list_of_constraints (Several [CatchAll, Selector ''a.pp''])) \<noteq> 1"
    by (simp add: list_of_constraints_def)
  have one: "load_cube example_env (Str ''a.pp'') (Single CatchAll) () =
     ([(Load_files, [''a.pp''], ())], Inr ''a.pp'')"
    by code_simp
  show ?thesis
    using load_cube_arity_error [OF zero, of example_env "Str ''a.pp''" "()"]
      load_cube_arity_error [OF two, of example_env "Str ''a.pp''" "()"] one
    by simp
qed

lemma generate_groups_merge_cubes:
  "generate_groups (env\<lparr>merge_cubes := m\<rparr>) callback groups = generate_groups env callback groups"
  by (induction groups) auto

lemma generate_cubes_merge_cubes:
  "generate_cubes (env\<lparr>merge_cubes := m\<rparr>) uris callback = generate_cubes env uris callback"
  by (simp add: generate_cubes_def generate_groups_merge_cubes uri_tuples_def)

lemma matches_merge_cubes: "matches (env\<lparr>merge_cubes := m\<rparr>) = matches env"
  by (auto simp: matches_def fun_eq_iff split: constraint.splits)

lemma cubes_map: "cubes (map (\<lambda>c. (c, f c)) cs) = concat (map f cs)"
  by (simp add: cubes_def comp_def)

lemma length_concat_map: "length (concat (map f cs)) = sum_list (map (\<lambda>c. length (f c)) cs)"
  by (simp add: length_concat comp_def)

text \<open>
  Claim C6. \<^verbatim>\<open>load_raw\<close> does not depend on the merge: replacing the merge function by any
  other leaves its result unchanged. When the stream is consumed without an exception, the
  result is the concatenation, in constraint order, of the cubes of the stream that match
  each constraint, in the order the stream yielded them; so its length is the sum of the
  numbers of matches of the constraints.
\<close>

theorem load_raw_never_merges:
  "load_raw (env\<lparr>merge_cubes := m\<rparr>) uris constraints callback =
     load_raw env uris constraints callback \<and>
   (stream_error (generate_cubes env uris callback) = None \<longrightarrow>
      snd (load_raw env uris constraints callback) =
        Inr (concat (map (\<lambda>c. filter (matches env c) (stream_cubes (generate_cubes env uris callback)))
               (list_of_constraints constraints))) \<and>
      (\<forall>result. snd (load_raw env uris constraints callback) = Inr result \<longrightarrow>
         length result =
           sum_list (map (\<lambda>c. length (filter (matches env c)
                                  (stream_cubes (generate_cubes env uris callback))))
                      (list_of_constraints constraints))))"
proof -
  have same: "load_raw (env\<lparr>merge_cubes := m\<rparr>) uris constraints callback =
      load_raw env uris constraints callback"
    by (simp add: load_raw_def load_collection_def from_cubes_eq generate_cubes_merge_cubes
        matches_merge_cubes cong: option.case_cong)
  show ?thesis
    using same by (auto simp: load_raw_def load_collection_ok cubes_map length_concat_map)
qed

theorem load_raw_never_merges_witness:
  "load_raw (example_env\<lparr>merge_cubes := (\<lambda>cs. [])\<rparr>) (Iter [''a.pp'', ''a.pp''])
       (Several [CatchAll, Selector ''a.pp'']) () =
     load_raw example_env (Iter [''a.pp'', ''a.pp'']) (Several [CatchAll, Selector ''a.pp'']) () \<and>
   stream_error (generate_cubes example_env (Iter [''a.pp'', ''a.pp'']) ()) = None \<and>
   snd (load_raw example_env (Iter [''a.pp'', ''a.pp'']) (Several [CatchAll, Selector ''a.pp'']) ()) =
     Inr [''a.pp'', ''a.pp'', ''a.pp'', ''a.pp''] \<and>
   snd (load example_env (Iter [''a.pp'', ''a.pp'']) (Several [CatchAll, Selector ''a.pp'']) ()) =
     Inr [''a.pp'', ''a.pp'']"
proof -
  have ok: "stream_error (generate_cubes example_env (Iter [''a.pp'', ''a.pp'']) ()) = None"
    by code_simp
  have cubes: "stream_cubes (generate_cubes example_env (Iter [''a.pp'', ''a.pp'']) ()) = [''a.pp'', ''a.pp'']"
    by code_simp
  have merged: "snd (load example_env (Iter [''a.pp'', ''a.pp'']) (Several [CatchAll, Selector ''a.pp'']) ()) =
     Inr [''a.pp'', ''a.pp'']"
    by code_simp
  have sel: "matches example_env CatchAll = (\<lambda>c. True)" "matches example_env (Selector ''a.pp'') = (\<lambda>c. ''a.pp'' = c)"
    by (simp_all add: matches_def example_env_def fun_eq_iff)
  show ?thesis
    using load_raw_never_merges [where env = example_env and m = "\<lambda>cs. []"
        and uris = "Iter [''a.pp'', ''a.pp'']"
        and constraints = "Several [CatchAll, Selector ''a.pp'']" and callback = "()"] ok merged
    by (simp add: cubes list_of_constraints_def sel)
qed

text \<open>
  Claim C8. When the stream of cubes raises \<^verbatim>\<open>EOFError\<close> with some message while the
  collection is built, each of \<^verbatim>\<open>load\<close>, \<^verbatim>\<open>load_cubes\<close> and \<^verbatim>\<open>load_raw\<close>, and \<^verbatim>\<open>load_cube\<close>
  when it is given exactly one constraint, raises \<^verbatim>\<open>TranslationError\<close> whose message is
  "The file appears empty or incomplete: " followed by the \<^verbatim>\<open>repr\<close> of the message of the
  \<^verbatim>\<open>EOFError\<close>.
\<close>

theorem translation_error_on_eof:
  assumes "stream_error (generate_cubes env uris callback) = Some (EOFError message)"
  shows "snd (load env uris constraints callback) =
           Inl (TranslationError (''The file appears empty or incomplete: '' @ repr message)) \<and>
         snd (load_cubes env uris constraints callback) =
           Inl (TranslationError (''The file appears empty or incomplete: '' @ repr message)) \<and>
         snd (load_raw env uris constraints callback) =
           Inl (TranslationError (''The file appears empty or incomplete: '' @ repr message)) \<and>
         (length (list_of_constraints constraints) = 1 \<longrightarrow>
            snd (load_cube env uris constraints callback) =
              Inl (TranslationError (''The file appears empty or incomplete: '' @ repr message)))"
  by (simp add: load_def load_cubes_def load_raw_def load_cube_def load_collection_eof [OF assms])

theorem translation_error_on_eof_witness:
  "stream_error (generate_cubes example_env (Iter [''a.pp'', ''truncated.pp'']) ()) =
     Some (EOFError ''unexpected end of file'') \<and>
   snd (load example_env (Iter [''a.pp'', ''truncated.pp'']) Absent ()) =
     Inl (TranslationError (''The file appears empty or incomplete: ''
            @ [CHR 0x27] @ ''unexpected end of file'' @ [CHR 0x27])) \<and>
   snd (load_cubes example_env (Iter [''a.pp'', ''truncated.pp'']) Absent ()) =
     Inl (TranslationError (''The file appears empty or incomplete: ''
            @ [CHR 0x27] @ ''unexpected end of file'' @ [CHR 0x27])) \<and>
   snd (load_raw example_env (Iter [''a.pp'', ''truncated.pp'']) Absent ()) =
     Inl (TranslationError (''The file appears empty or incomplete: ''
            @ [CHR 0x27] @ ''unexpected end of file'' @ [CHR 0x27])) \<and>
   snd (load_cube example_env (Iter [''a.pp'', ''truncated.pp'']) Absent ()) =
     Inl (TranslationError (''The file appears empty or incomplete: ''
            @ [CHR 0x27] @ ''unexpected end of file'' @ [CHR 0x27]))"
proof -
  have eof: "stream_error (generate_cubes example_env (Iter [''a.pp'', ''truncated.pp'']) ()) =
     Some (EOFError ''unexpected end of file'')"
    by code_simp
  have r: "repr ''unexpected end of file'' = [CHR 0x27] @ ''unexpected end of file'' @ [CHR 0x27]"
    by code_simp
  have one: "length (list_of_constraints (Absent :: string constraints)) = 1"
    by (simp add: list_of_constraints_def)
  show ?thesis
    using translation_error_on_eof [OF eof, of "Absent"] eof one
    by (simp add: r)
qed




text \<open>
  The groups of \<^verbatim>\<open>itertools.groupby\<close>: together they are the list, no group is empty, each
  holds elements of its key only, and over a list sorted by the key the keys of the groups
  increase strictly.
\<close>

lemma concat_groupby: "concat (map snd (groupby key xs)) = xs"
  by (induction key xs rule: groupby.induct) simp_all

lemma groupby_keys: "fst ` set (groupby key xs) = key ` set xs"
proof (induction key xs rule: groupby.induct)
  case (1 key)
  then show ?case by simp
next
  case (2 key x xs)
  have "set xs = set (takeWhile (\<lambda>y. key y = key x) xs) \<union> set (dropWhile (\<lambda>y. key y = key x) xs)"
    by (metis set_append takeWhile_dropWhile_id)
  then have "key ` set xs \<union> {key x} = key ` set (dropWhile (\<lambda>y. key y = key x) xs) \<union> {key x}"
    by (auto dest: set_takeWhileD)
  with 2 show ?case by auto
qed

lemma groupby_groups:
  "(k, g) \<in> set (groupby key xs) \<Longrightarrow> g \<noteq> [] \<and> (\<forall>x \<in> set g. key x = k)"
proof (induction key xs arbitrary: k g rule: groupby.induct)
  case (1 key)
  then show ?case by simp
next
  case (2 key x xs)
  from "2.prems" consider
      "k = key x" "g = x # takeWhile (\<lambda>y. key y = key x) xs"
    | "(k, g) \<in> set (groupby key (dropWhile (\<lambda>y. key y = key x) xs))"
    by auto
  then show ?case
  proof cases
    case 1
    then show ?thesis by (auto dest: set_takeWhileD)
  next
    case 2
    then show ?thesis by (rule "2.IH")
  qed
qed

lemma dropWhile_key_greater:
  "sorted (map key xs) \<Longrightarrow> \<forall>y \<in> set xs. key x \<le> key y \<Longrightarrow>
   \<forall>y \<in> set (dropWhile (\<lambda>y. key y = key x) xs). key x < key y"
proof (induction xs)
  case Nil
  then show ?case by simp
next
  case (Cons a xs)
  show ?case
  proof (cases "key a = key x")
    case True
    with Cons show ?thesis by simp
  next
    case False
    with Cons.prems have "key x < key a" by auto
    moreover from Cons.prems have "\<forall>y \<in> set xs. key a \<le> key y" by simp
    ultimately show ?thesis using False by auto
  qed
qed


lemma groupby_sorted_keys:
  "sorted (map key xs) \<Longrightarrow>
   sorted (map fst (groupby key xs)) \<and> distinct (map fst (groupby key xs))"
proof (induction key xs rule: groupby.induct)
  case (1 key)
  then show ?case by simp
next
  case (2 key x xs)
  let ?rest = "dropWhile (\<lambda>y. key y = key x) xs"
  from "2.prems" have sx: "sorted (map key xs)" and le: "\<forall>y \<in> set xs. key x \<le> key y"
    by simp_all
  from sx have "sorted_wrt (\<lambda>a b. key a \<le> key b) xs"
    by (simp only: sorted_map)
  then have "sorted_wrt (\<lambda>a b. key a \<le> key b) ?rest"
    by (rule sorted_wrt_dropWhile)
  then have "sorted (map key ?rest)"
    by (simp only: sorted_map)
  then have ih: "sorted (map fst (groupby key ?rest)) \<and> distinct (map fst (groupby key ?rest))"
    by (rule "2.IH")
  have gt: "\<forall>k \<in> fst ` set (groupby key ?rest). key x < k"
    using dropWhile_key_greater [OF sx le] by (simp only: groupby_keys) blast
  have eq: "map fst (groupby key (x # xs)) = key x # map fst (groupby key ?rest)"
    by simp
  from gt have "\<forall>k \<in> set (map fst (groupby key ?rest)). key x \<le> k \<and> key x \<noteq> k"
    by (simp only: set_map) (metis less_imp_le less_irrefl)
  with ih show ?case
    unfolding eq by (simp only: sorted_simps distinct.simps) blast
qed

lemma sorted_map_fst:
  "sorted (xs :: ('a::linorder \<times> 'b::linorder) list) \<Longrightarrow> sorted (map fst xs)"
proof (induction xs)
  case Nil
  then show ?case by simp
next
  case (Cons p ps)
  have "fst p \<le> fst q" if "p \<le> q" for q
    using that by (cases p, cases q) (auto simp: less_le)
  with Cons show ?case by auto
qed






lemma stream_calls_yield_all:
  "stream_calls (yield_all it r) = stream_calls r \<or> stream_calls (yield_all it r) = []"
  by (induction it) simp_all

lemma stream_error_yield_all:
  "stream_error (yield_all it r) = None \<Longrightarrow>
   stream_error r = None \<and> stream_calls (yield_all it r) = stream_calls r"
  by (induction it) simp_all

lemma generate_groups_calls:
  "stream_calls (generate_groups env callback groups) =
     map (\<lambda>(scheme, g).
            if scheme = ''file'' then (Load_files, map snd g, callback)
            else (Load_http, map (\<lambda>x. fst x @ '':'' @ snd x) g, callback))
       (take (length (stream_calls (generate_groups env callback groups))) groups) \<and>
   (\<forall>(scheme, g) \<in> set (take (length (stream_calls (generate_groups env callback groups))) groups).
      scheme \<in> {''file'', ''http'', ''https''})"
proof (induction groups)
  case Nil
  then show ?case by simp
next
  case (Cons p groups)
  obtain scheme g where p: "p = (scheme, g)" by (cases p)
  show ?case
  proof (cases "scheme = ''file''")
    case True
    from stream_calls_yield_all
      [of "load_files env (map snd g) callback" "generate_groups env callback groups"]
    show ?thesis
    proof
      assume "stream_calls (yield_all (load_files env (map snd g) callback)
                (generate_groups env callback groups)) = stream_calls (generate_groups env callback groups)"
      with Cons.IH show ?thesis by (simp add: p True)
    next
      assume "stream_calls (yield_all (load_files env (map snd g) callback)
                (generate_groups env callback groups)) = []"
      then show ?thesis by (simp add: p True)
    qed
  next
    case False
    show ?thesis
    proof (cases "scheme \<in> set [''http'', ''https'']")
      case http: True
      from stream_calls_yield_all
        [of "load_http env (map (\<lambda>x. fst x @ '':'' @ snd x) g) callback"
            "generate_groups env callback groups"]
      show ?thesis
      proof
        assume "stream_calls (yield_all (load_http env (map (\<lambda>x. fst x @ '':'' @ snd x) g) callback)
                  (generate_groups env callback groups)) = stream_calls (generate_groups env callback groups)"
        with Cons.IH http False show ?thesis by (simp add: p)
      next
        assume "stream_calls (yield_all (load_http env (map (\<lambda>x. fst x @ '':'' @ snd x) g) callback)
                  (generate_groups env callback groups)) = []"
        with http False show ?thesis by (simp add: p)
      qed
    next
      case other: False
      with False show ?thesis by (simp add: p)
    qed
  qed
qed

lemma generate_groups_all_called:
  "stream_error (generate_groups env callback groups) = None \<Longrightarrow>
   length (stream_calls (generate_groups env callback groups)) = length groups"
proof (induction groups)
  case Nil
  then show ?case by simp
next
  case (Cons p groups)
  obtain scheme g where p: "p = (scheme, g)" by (cases p)
  show ?case
  proof (cases "scheme = ''file''")
    case True
    with Cons.prems p have
      "stream_error (yield_all (load_files env (map snd g) callback)
         (generate_groups env callback groups)) = None"
      by simp
    from stream_error_yield_all [OF this] Cons.IH show ?thesis
      by (simp add: p True)
  next
    case False
    show ?thesis
    proof (cases "scheme \<in> set [''http'', ''https'']")
      case http: True
      with Cons.prems p False have
        "stream_error (yield_all (load_http env (map (\<lambda>x. fst x @ '':'' @ snd x) g) callback)
           (generate_groups env callback groups)) = None"
        by simp
      from stream_error_yield_all [OF this] Cons.IH http False show ?thesis
        by (simp add: p)
    next
      case other: False
      with Cons.prems p False show ?thesis by simp
    qed
  qed
qed




text \<open>
  Claim C9. The loader calls that the stream makes are, in order, those of the first groups
  of the sorted URIs, one call per group: a \<^verbatim>\<open>file\<close> group calls \<^verbatim>\<open>load_files\<close> with the parts
  of its tuples as they are, and an \<^verbatim>\<open>http\<close> or \<^verbatim>\<open>https\<close> group calls \<^verbatim>\<open>load_http\<close> with each
  tuple written scheme, colon, part; every group that gets a call has one of these three
  schemes; and when no exception ends the stream, every group gets its call.
\<close>

theorem loader_arguments:
  "stream_calls (generate_cubes env uris callback) =
     map (\<lambda>(scheme, g).
            if scheme = ''file'' then (Load_files, map snd g, callback)
            else (Load_http, map (\<lambda>x. fst x @ '':'' @ snd x) g, callback))
       (take (length (stream_calls (generate_cubes env uris callback)))
          (groupby fst (uri_tuples env uris))) \<and>
   (\<forall>(scheme, g) \<in> set (take (length (stream_calls (generate_cubes env uris callback)))
                           (groupby fst (uri_tuples env uris))).
      scheme \<in> {''file'', ''http'', ''https''}) \<and>
   (stream_error (generate_cubes env uris callback) = None \<longrightarrow>
      length (stream_calls (generate_cubes env uris callback)) =
        length (groupby fst (uri_tuples env uris)))"
  unfolding generate_cubes_def
  using generate_groups_calls [of env callback "groupby fst (uri_tuples env uris)"]
    generate_groups_all_called [of env callback "groupby fst (uri_tuples env uris)"]
  by blast

theorem loader_arguments_witness:
  "stream_error (generate_cubes example_env
      (Iter [''http://x/b.nc'', ''b.pp'', ''https://y'', ''file:a.pp'', ''http://a'']) ()) = None \<and>
   stream_calls (generate_cubes example_env
      (Iter [''http://x/b.nc'', ''b.pp'', ''https://y'', ''file:a.pp'', ''http://a'']) ()) =
     [(Load_files, [''a.pp'', ''b.pp''], ()),
      (Load_http, [''http://a'', ''http://x/b.nc''], ()),
      (Load_http, [''https://y''], ())]"
proof -
  let ?uris = "Iter [''http://x/b.nc'', ''b.pp'', ''https://y'', ''file:a.pp'', ''http://a'']"
  have ok: "stream_error (generate_cubes example_env ?uris ()) = None"
    by code_simp
  have groups: "groupby fst (uri_tuples example_env ?uris) =
     [(''file'', [(''file'', ''a.pp''), (''file'', ''b.pp'')]),
      (''http'', [(''http'', ''//a''), (''http'', ''//x/b.nc'')]),
      (''https'', [(''https'', ''//y'')])]"
    by code_simp
  from loader_arguments [of example_env ?uris "()"] ok
  have n: "length (stream_calls (generate_cubes example_env ?uris ())) =
      length (groupby fst (uri_tuples example_env ?uris))"
    by blast
  from loader_arguments [of example_env ?uris "()"]
  have "stream_calls (generate_cubes example_env ?uris ()) =
     map (\<lambda>(scheme, g).
            if scheme = ''file'' then (Load_files, map snd g, ())
            else (Load_http, map (\<lambda>x. fst x @ '':'' @ snd x) g, ()))
       (take (length (stream_calls (generate_cubes example_env ?uris ())))
          (groupby fst (uri_tuples example_env ?uris)))"
    by blast
  then have "stream_calls (generate_cubes example_env ?uris ()) =
     [(Load_files, [''a.pp'', ''b.pp''], ()),
      (Load_http, [''http://a'', ''http://x/b.nc''], ()),
      (Load_http, [''https://y''], ())]"
    unfolding n unfolding groups by simp
  with ok show ?thesis by blast
qed




text \<open>
  The names that the loader calls of the groups hold, one after the other, are the tuples of
  the groups, each written as its loader takes it: the part for a \<^verbatim>\<open>file\<close> tuple, and scheme,
  colon, part for any other.
\<close>

lemma group_call_names:
  "\<forall>(k, g) \<in> set groups. \<forall>x \<in> set g. fst x = k \<Longrightarrow>
   concat (map (\<lambda>(scheme, g). if scheme = ''file'' then map snd g
                                else map (\<lambda>x. fst x @ '':'' @ snd x) g) groups) =
     map (\<lambda>x. if fst x = ''file'' then snd x else fst x @ '':'' @ snd x)
       (concat (map snd groups))"
proof (induction groups)
  case Nil
  then show ?case by simp
next
  case (Cons p groups)
  obtain k g where p: "p = (k, g)" by (cases p)
  from Cons.prems p have same: "\<forall>x \<in> set g. fst x = k"
    by simp
  from Cons.prems have rest: "\<forall>(k, g) \<in> set groups. \<forall>x \<in> set g. fst x = k"
    by simp
  have here: "(if k = ''file'' then map snd g else map (\<lambda>x. fst x @ '':'' @ snd x) g) =
      map (\<lambda>x. if fst x = ''file'' then snd x else fst x @ '':'' @ snd x) g"
    using same by (cases "k = ''file''") (simp_all cong: map_cong)
  show ?case
    using Cons.IH [OF rest] here by (simp add: p)
qed

lemma call_names:
  "map (\<lambda>(l, names, cb). names)
     (map (\<lambda>(scheme, g).
             if scheme = ''file'' then (Load_files, map snd g, callback)
             else (Load_http, map (\<lambda>x. fst x @ '':'' @ snd x) g, callback)) groups) =
   map (\<lambda>(scheme, g). if scheme = ''file'' then map snd g
                        else map (\<lambda>x. fst x @ '':'' @ snd x) g) groups"
  by (induction groups) (simp_all split: prod.splits)

text \<open>
  Claim C7 as stated, refuted: of the URIs \<^verbatim>\<open>http://x/b.nc\<close>, \<^verbatim>\<open>a.pp\<close> and \<^verbatim>\<open>gopher:x\<close>, the
  decoded tuple of the first is never processed by the stream. The stream calls the file
  loader for \<^verbatim>\<open>a.pp\<close>, yields its cube and ends with the \<^verbatim>\<open>ValueError\<close> of the \<^verbatim>\<open>gopher\<close>
  group, which is sorted before the \<^verbatim>\<open>http\<close> group.
\<close>

theorem failed_stream_skips_later_groups:
  "(''http'', ''//x/b.nc'') \<in>
     set (map (decode_uri example_env) (uri_list (Iter [''http://x/b.nc'', ''a.pp'', ''gopher:x'']))) \<and>
   stream_calls (generate_cubes example_env (Iter [''http://x/b.nc'', ''a.pp'', ''gopher:x'']) ()) =
     [(Load_files, [''a.pp''], ())] \<and>
   stream_cubes (generate_cubes example_env (Iter [''http://x/b.nc'', ''a.pp'', ''gopher:x'']) ()) =
     [''a.pp''] \<and>
   stream_error (generate_cubes example_env (Iter [''http://x/b.nc'', ''a.pp'', ''gopher:x'']) ()) =
     Some (ValueError ''Iris cannot handle the URI scheme: gopher'')"
  by code_simp

text \<open>
  Claim C7, amended. A single string is one URI: its tuples are the one decoded tuple. The
  groups that \<^verbatim>\<open>_generate_cubes\<close> iterates over hold, taken together, exactly the decoded
  tuples of the URIs, each as often as it was given, in sorted order; no group is empty and
  each holds tuples of its scheme only; and the schemes of the groups increase strictly, so
  all tuples of one scheme are in one group. The loader calls of the stream are always
  those of the first groups, one call per group in order. When no exception ends the
  stream, they are the calls of all the groups, and the names handed to the loaders, one
  after the other, are the sorted decoded tuples, each written as its loader takes it: none
  is lost and none is repeated.
\<close>

theorem uri_groups_complete:
  "uri_tuples env (Str s) = [decode_uri env s] \<and>
   mset (concat (map snd (groupby fst (uri_tuples env uris)))) =
     mset (map (decode_uri env) (uri_list uris)) \<and>
   concat (map snd (groupby fst (uri_tuples env uris))) = sort (map (decode_uri env) (uri_list uris)) \<and>
   (\<forall>(scheme, g) \<in> set (groupby fst (uri_tuples env uris)).
      g \<noteq> [] \<and> (\<forall>x \<in> set g. fst x = scheme)) \<and>
   sorted (map fst (groupby fst (uri_tuples env uris))) \<and>
   distinct (map fst (groupby fst (uri_tuples env uris))) \<and>
   stream_calls (generate_cubes env uris callback) =
     map (\<lambda>(scheme, g).
            if scheme = ''file'' then (Load_files, map snd g, callback)
            else (Load_http, map (\<lambda>x. fst x @ '':'' @ snd x) g, callback))
       (take (length (stream_calls (generate_cubes env uris callback)))
          (groupby fst (uri_tuples env uris))) \<and>
   (stream_error (generate_cubes env uris callback) = None \<longrightarrow>
      stream_calls (generate_cubes env uris callback) =
        map (\<lambda>(scheme, g).
               if scheme = ''file'' then (Load_files, map snd g, callback)
               else (Load_http, map (\<lambda>x. fst x @ '':'' @ snd x) g, callback))
          (groupby fst (uri_tuples env uris)) \<and>
      concat (map (\<lambda>(l, names, cb). names) (stream_calls (generate_cubes env uris callback))) =
        map (\<lambda>x. if fst x = ''file'' then snd x else fst x @ '':'' @ snd x)
          (sort (map (decode_uri env) (uri_list uris))))"
proof -
  let ?groups = "groupby fst (uri_tuples env uris)"
  let ?call = "\<lambda>(scheme, g).
            if scheme = ''file'' then (Load_files, map snd g, callback)
            else (Load_http, map (\<lambda>x. fst x @ '':'' @ snd x) g, callback)"
  have single: "uri_tuples env (Str s) = [decode_uri env s]"
    by (simp add: uri_tuples_def uri_list_def)
  have flat: "concat (map snd ?groups) = sort (map (decode_uri env) (uri_list uris))"
    by (simp add: concat_groupby uri_tuples_def)
  have same: "mset (concat (map snd ?groups)) = mset (map (decode_uri env) (uri_list uris))"
    by (simp only: flat mset_sort)
  have runs: "\<forall>(scheme, g) \<in> set ?groups. g \<noteq> [] \<and> (\<forall>x \<in> set g. fst x = scheme)"
    using groupby_groups [of _ _ fst "uri_tuples env uris"] by blast
  have "sorted (uri_tuples env uris)"
    by (simp add: uri_tuples_def)
  then have "sorted (map fst (uri_tuples env uris))"
    by (rule sorted_map_fst)
  then have keys: "sorted (map fst ?groups) \<and> distinct (map fst ?groups)"
    by (rule groupby_sorted_keys)
  from generate_groups_calls [of env callback ?groups]
  have prefix: "stream_calls (generate_cubes env uris callback) =
      map ?call (take (length (stream_calls (generate_cubes env uris callback))) ?groups)"
    unfolding generate_cubes_def by (rule conjunct1)
  have whole: "stream_calls (generate_cubes env uris callback) = map ?call ?groups \<and>
      concat (map (\<lambda>(l, names, cb). names) (stream_calls (generate_cubes env uris callback))) =
        map (\<lambda>x. if fst x = ''file'' then snd x else fst x @ '':'' @ snd x)
          (sort (map (decode_uri env) (uri_list uris)))"
    if none: "stream_error (generate_cubes env uris callback) = None"
  proof -
    from none have "length (stream_calls (generate_groups env callback ?groups)) = length ?groups"
      unfolding generate_cubes_def by (rule generate_groups_all_called)
    then have len: "length (stream_calls (generate_cubes env uris callback)) = length ?groups"
      by (simp only: generate_cubes_def)
    from prefix have calls: "stream_calls (generate_cubes env uris callback) = map ?call ?groups"
      unfolding len by (simp only: take_all order_refl)
    from runs have keyed: "\<forall>(k, g) \<in> set ?groups. \<forall>x \<in> set g. fst x = k"
      by (simp add: case_prod_unfold)
    have "concat (map (\<lambda>(l, names, cb). names) (stream_calls (generate_cubes env uris callback))) =
        map (\<lambda>x. if fst x = ''file'' then snd x else fst x @ '':'' @ snd x) (concat (map snd ?groups))"
      by (simp only: calls call_names group_call_names [OF keyed])
    then have "concat (map (\<lambda>(l, names, cb). names) (stream_calls (generate_cubes env uris callback))) =
        map (\<lambda>x. if fst x = ''file'' then snd x else fst x @ '':'' @ snd x)
          (sort (map (decode_uri env) (uri_list uris)))"
      by (simp only: flat)
    with calls show ?thesis by (rule conjI)
  qed
  from whole have stream: "stream_error (generate_cubes env uris callback) = None \<longrightarrow>
      stream_calls (generate_cubes env uris callback) = map ?call ?groups \<and>
      concat (map (\<lambda>(l, names, cb). names) (stream_calls (generate_cubes env uris callback))) =
        map (\<lambda>x. if fst x = ''file'' then snd x else fst x @ '':'' @ snd x)
          (sort (map (decode_uri env) (uri_list uris)))"
    by (rule impI)
  show ?thesis
    apply (rule conjI, rule single)
    apply (rule conjI, rule same)
    apply (rule conjI, rule flat)
    apply (rule conjI, rule runs)
    apply (rule conjI, rule conjunct1 [OF keys])
    apply (rule conjI, rule conjunct2 [OF keys])
    apply (rule conjI, rule prefix)
    apply (rule stream)
    done
qed

theorem uri_groups_complete_witness:
  "uri_tuples example_env (Str ''a.pp'') = [(''file'', ''a.pp'')] \<and>
   groupby fst (uri_tuples example_env
       (Iter [''http://x/b.nc'', ''b.pp'', ''https://y'', ''file:a.pp'', ''http://a''])) =
     [(''file'', [(''file'', ''a.pp''), (''file'', ''b.pp'')]),
      (''http'', [(''http'', ''//a''), (''http'', ''//x/b.nc'')]),
      (''https'', [(''https'', ''//y'')])] \<and>
   mset [(''file'', ''a.pp''), (''file'', ''b.pp''), (''http'', ''//a''), (''http'', ''//x/b.nc''),
         (''https'', ''//y'')] =
     mset (map (decode_uri example_env)
       [''http://x/b.nc'', ''b.pp'', ''https://y'', ''file:a.pp'', ''http://a'']) \<and>
   stream_error (generate_cubes example_env
       (Iter [''http://x/b.nc'', ''b.pp'', ''https://y'', ''file:a.pp'', ''http://a'']) ()) = None \<and>
   stream_calls (generate_cubes example_env
       (Iter [''http://x/b.nc'', ''b.pp'', ''https://y'', ''file:a.pp'', ''http://a'']) ()) =
     [(Load_files, [''a.pp'', ''b.pp''], ()),
      (Load_http, [''http://a'', ''http://x/b.nc''], ()),
      (Load_http, [''https://y''], ())] \<and>
   concat (map (\<lambda>(l, names, cb). names)
     (stream_calls (generate_cubes example_env
        (Iter [''http://x/b.nc'', ''b.pp'', ''https://y'', ''file:a.pp'', ''http://a'']) ()))) =
     [''a.pp'', ''b.pp'', ''http://a'', ''http://x/b.nc'', ''https://y'']"
proof -
  let ?uris = "Iter [''http://x/b.nc'', ''b.pp'', ''https://y'', ''file:a.pp'', ''http://a'']"
  note all = uri_groups_complete [of example_env "''a.pp''" ?uris "()"]
  have decode: "decode_uri example_env ''a.pp'' = (''file'', ''a.pp'')"
    by code_simp
  have groups: "groupby fst (uri_tuples example_env ?uris) =
     [(''file'', [(''file'', ''a.pp''), (''file'', ''b.pp'')]),
      (''http'', [(''http'', ''//a''), (''http'', ''//x/b.nc'')]),
      (''https'', [(''https'', ''//y'')])]"
    by code_simp
  have list: "uri_list ?uris = [''http://x/b.nc'', ''b.pp'', ''https://y'', ''file:a.pp'', ''http://a'']"
    by (simp add: uri_list_def)
  have sorted_tuples: "sort (map (decode_uri example_env)
        [''http://x/b.nc'', ''b.pp'', ''https://y'', ''file:a.pp'', ''http://a'']) =
      [(''file'', ''a.pp''), (''file'', ''b.pp''), (''http'', ''//a''), (''http'', ''//x/b.nc''),
       (''https'', ''//y'')]"
    by code_simp
  have ok: "stream_error (generate_cubes example_env ?uris ()) = None"
    by code_simp
  from all [THEN conjunct1] have one: "uri_tuples example_env (Str ''a.pp'') = [(''file'', ''a.pp'')]"
    unfolding decode .
  from all [THEN conjunct2, THEN conjunct1]
  have same: "mset [(''file'', ''a.pp''), (''file'', ''b.pp''), (''http'', ''//a''),
        (''http'', ''//x/b.nc''), (''https'', ''//y'')] =
      mset (map (decode_uri example_env)
        [''http://x/b.nc'', ''b.pp'', ''https://y'', ''file:a.pp'', ''http://a''])"
    unfolding groups list by simp
  from all [THEN conjunct2, THEN conjunct2, THEN conjunct2, THEN conjunct2, THEN conjunct2,
      THEN conjunct2, THEN conjunct2] ok
  have "stream_calls (generate_cubes example_env ?uris ()) =
        map (\<lambda>(scheme, g).
               if scheme = ''file'' then (Load_files, map snd g, ())
               else (Load_http, map (\<lambda>x. fst x @ '':'' @ snd x) g, ()))
          (groupby fst (uri_tuples example_env ?uris)) \<and>
      concat (map (\<lambda>(l, names, cb). names) (stream_calls (generate_cubes example_env ?uris ()))) =
        map (\<lambda>x. if fst x = ''file'' then snd x else fst x @ '':'' @ snd x)
          (sort (map (decode_uri example_env) (uri_list ?uris)))"
    by (rule mp)
  then have processed: "stream_calls (generate_cubes example_env ?uris ()) =
       [(Load_files, [''a.pp'', ''b.pp''], ()),
        (Load_http, [''http://a'', ''http://x/b.nc''], ()),
        (Load_http, [''https://y''], ())] \<and>
      concat (map (\<lambda>(l, names, cb). names) (stream_calls (generate_cubes example_env ?uris ()))) =
        [''a.pp'', ''b.pp'', ''http://a'', ''http://x/b.nc'', ''https://y'']"
    unfolding groups list sorted_tuples by simp
  from one groups same ok processed show ?thesis
    by simp
qed

end
